theory Spec2Isabelle
  imports Main "HOL-Library.Log_Nat" "HOL-Library.Product_Lexorder" "HOL-Library.Sublist"
begin

section \<open>Python values\<close>

text \<open>
  A Python \<open>str\<close> is a sequence of Unicode code points, and \<open>len\<close> counts code
  points: a string is a list of natural numbers. \<open>str\<close> turns an Isabelle literal
  into such a list.
\<close>

type_synonym pystr = "nat list"

definition str :: "string \<Rightarrow> pystr" where
  "str s = map of_char s"

text \<open>
  A \<open>dict\<close> keeps its keys in the order of their first insertion; assigning to a
  key that is present replaces the value where the key stands.
\<close>

fun dict_set :: "('k \<times> 'v) list \<Rightarrow> 'k \<Rightarrow> 'v \<Rightarrow> ('k \<times> 'v) list" where
  "dict_set [] k v = [(k, v)]"
| "dict_set ((k', v') # d) k v =
     (if k' = k then (k', v) # d else (k', v') # dict_set d k v)"

definition dict_keys :: "('k \<times> 'v) list \<Rightarrow> 'k list" where
  "dict_keys d = map fst d"

subsection \<open>Floats\<close>

text \<open>
  A finite \<open>float\<close> is the rational number it denotes. \<open>round53\<close> rounds a rational
  to the nearest number with a 53-bit significand, ties to even, as IEEE 754 binary64
  arithmetic does. The exponent is not bounded: a Python \<open>str\<close> or \<open>list\<close> is
  shorter than \<open>2^63\<close>, so no quotient computed below leaves the normal range.
\<close>

definition float_exp :: "rat \<Rightarrow> int" where
  "float_exp x = (let (p, q) = quotient_of \<bar>x\<bar>; d = bitlen p - bitlen q
                  in if 2 powi d \<le> \<bar>x\<bar> then d else d - 1)"

definition round_half_even :: "rat \<Rightarrow> int" where
  "round_half_even m = (let f = \<lfloor>m\<rfloor>; d = m - of_int f
     in if d < 1 / 2 then f else if 1 / 2 < d then f + 1 else if even f then f else f + 1)"

definition round53 :: "rat \<Rightarrow> rat" where
  "round53 x = (if x = 0 then 0
     else let u = 2 powi (float_exp x - 52) in of_int (round_half_even (x / u)) * u)"

text \<open>\<open>float(n)\<close> of an \<open>int\<close>, \<open>x * y\<close> and \<open>x / y\<close> of floats, \<open>m / n\<close> of ints.\<close>

definition float_of_nat :: "nat \<Rightarrow> rat" where
  "float_of_nat n = round53 (of_nat n)"

definition float_mul :: "rat \<Rightarrow> rat \<Rightarrow> rat" where
  "float_mul x y = round53 (x * y)"

definition float_div :: "rat \<Rightarrow> rat \<Rightarrow> rat" where
  "float_div x y = round53 (x / y)"

definition int_truediv :: "nat \<Rightarrow> nat \<Rightarrow> rat" where
  "int_truediv m n = round53 (of_nat m / of_nat n)"

text \<open>
  A threshold comes from \<open>argparse\<close> with \<open>type=float\<close>, which also accepts
  \<open>inf\<close>, \<open>-inf\<close> and \<open>nan\<close>. \<open>float_gt x t\<close> is \<open>x > t\<close> for a finite \<open>x\<close>.
\<close>

datatype pyfloat = Finite rat | PosInf | NegInf | NaN

fun float_gt :: "rat \<Rightarrow> pyfloat \<Rightarrow> bool" where
  "float_gt x (Finite t) = (t < x)"
| "float_gt x PosInf = False"
| "float_gt x NegInf = True"
| "float_gt x NaN = False"

subsection \<open>The platform\<close>

text \<open>
  What the two scripts take from Python's standard library and from the machine, and
  what is not in their source: the tables of the Unicode database, the CSV dialect,
  the path functions of \<open>os.path\<close> and the clock. Every definition below that uses
  one of them takes the platform as its first argument, and every theorem holds for
  every platform.
  \<^item> \<open>csv_reader\<close> gives the rows \<open>csv.reader\<close> yields from a text, and whether it
    then raises instead of stopping (a decoding error or \<open>csv.Error\<close>).
  \<^item> \<open>csv_writerow\<close> gives the text \<open>csv.writer.writerow\<close> writes for a list of cells.
\<close>

record platform =
  nfkc :: "pystr \<Rightarrow> pystr"
  lower :: "pystr \<Rightarrow> pystr"
  isalnum :: "nat \<Rightarrow> bool"
  isdecimal :: "nat \<Rightarrow> bool"
  isspace :: "nat \<Rightarrow> bool"
  csv_reader :: "pystr \<Rightarrow> pystr list list \<times> bool"
  csv_writerow :: "pystr list \<Rightarrow> pystr"
  dirname :: "pystr \<Rightarrow> pystr"
  basename :: "pystr \<Rightarrow> pystr"
  splitext :: "pystr \<Rightarrow> pystr \<times> pystr"
  path_join :: "pystr \<Rightarrow> pystr \<Rightarrow> pystr"
  iso_timestamp :: pystr
  filename_timestamp :: pystr

text \<open>\<open>s.strip()\<close>, \<open>s.rstrip("\n")\<close> and \<open>raw.split("=", 1)\<close> for a \<open>raw\<close> with an \<open>=\<close>.\<close>

definition strip :: "platform \<Rightarrow> pystr \<Rightarrow> pystr" where
  "strip P s = rev (dropWhile (isspace P) (rev (dropWhile (isspace P) s)))"

definition rstrip_newlines :: "pystr \<Rightarrow> pystr" where
  "rstrip_newlines s = rev (dropWhile (\<lambda>c. c = 10) (rev s))"

definition split_eq :: "pystr \<Rightarrow> pystr \<times> pystr" where
  "split_eq raw = (takeWhile (\<lambda>c. c \<noteq> 61) raw, tl (dropWhile (\<lambda>c. c \<noteq> 61) raw))"

section \<open>Regular expressions\<close>

text \<open>
  The fragment of \<open>re\<close> the guard uses: a literal character, one character of a
  class, a greedy repetition \<open>{n,}\<close> of a class, a greedy \<open>?\<close>, the word boundary
  \<open>\b\<close> and concatenation. \<open>rx_ends w r s p\<close> lists the positions where a match of
  \<open>r\<close> that starts at \<open>p\<close> can end, in the order in which the backtracking matcher
  tries them; \<open>w\<close> is the class \<open>\w\<close>, which \<open>\b\<close> consults.
\<close>

datatype rx = Lit nat | One "nat \<Rightarrow> bool" | Rep nat "nat \<Rightarrow> bool" | Opt rx | WordB | Cat rx rx

fun rx_ends :: "(nat \<Rightarrow> bool) \<Rightarrow> rx \<Rightarrow> pystr \<Rightarrow> nat \<Rightarrow> nat list" where
  "rx_ends w (Lit c) s p = (if p < length s \<and> s ! p = c then [Suc p] else [])"
| "rx_ends w (One f) s p = (if p < length s \<and> f (s ! p) then [Suc p] else [])"
| "rx_ends w (Rep n f) s p =
     (let m = length (takeWhile f (drop p s)) in map (\<lambda>k. p + k) (rev [n..<Suc m]))"
| "rx_ends w (Opt r) s p = rx_ends w r s p @ [p]"
| "rx_ends w WordB s p =
     (if (0 < p \<and> p \<le> length s \<and> w (s ! (p - 1))) \<noteq> (p < length s \<and> w (s ! p))
      then [p] else [])"
| "rx_ends w (Cat r1 r2) s p = concat (map (rx_ends w r2 s) (rx_ends w r1 s p))"

fun lits :: "pystr \<Rightarrow> rx" where
  "lits [] = Rep 0 (\<lambda>c. False)"
| "lits [c] = Lit c"
| "lits (c # cs) = Cat (Lit c) (lits cs)"

text \<open>
  The successive non-overlapping matches from position \<open>p\<close> on, leftmost first, as
  \<open>re.sub\<close> and \<open>re.findall\<close> find them. No pattern of the guard matches the empty
  string, so what \<open>re\<close> does after an empty match is not modelled: a position with
  only an empty match is passed over like one with none.
\<close>

function rx_scan :: "(nat \<Rightarrow> bool) \<Rightarrow> rx \<Rightarrow> pystr \<Rightarrow> nat \<Rightarrow> (nat \<times> nat) list" where
  "rx_scan w r s p =
     (if length s \<le> p then []
      else case rx_ends w r s p of
             [] \<Rightarrow> rx_scan w r s (Suc p)
           | e # es \<Rightarrow> if p < e \<and> e \<le> length s then (p, e) # rx_scan w r s e
                      else rx_scan w r s (Suc p))"
  by pat_completeness auto
termination
  by (relation "measure (\<lambda>(w, r, s, p). length s - p)") auto

fun splice_matches :: "pystr \<Rightarrow> pystr \<Rightarrow> nat \<Rightarrow> (nat \<times> nat) list \<Rightarrow> pystr" where
  "splice_matches repl s p [] = drop p s"
| "splice_matches repl s p ((a, b) # ms) = take (a - p) (drop p s) @ repl @ splice_matches repl s b ms"

definition re_sub :: "(nat \<Rightarrow> bool) \<Rightarrow> rx \<Rightarrow> pystr \<Rightarrow> pystr \<Rightarrow> pystr" where
  "re_sub w r repl s = splice_matches repl s 0 (rx_scan w r s 0)"

definition re_findall :: "(nat \<Rightarrow> bool) \<Rightarrow> rx \<Rightarrow> pystr \<Rightarrow> pystr list" where
  "re_findall w r s = map (\<lambda>(a, b). take (b - a) (drop a s)) (rx_scan w r s 0)"

section \<open>dataset_guard.py\<close>

text \<open>
  \<open>parse_pairs\<close> of the guard: a pair without \<open>=\<close> is skipped, key and value are
  stripped, and nothing is checked about the key.
\<close>

definition guard_parse_pairs :: "platform \<Rightarrow> pystr list \<Rightarrow> (pystr \<times> pystr) list" where
  "guard_parse_pairs P pairs =
     foldl (\<lambda>data raw.
              if 61 \<in> set raw
              then (let (key, val) = split_eq raw in dict_set data (strip P key) (strip P val))
              else data)
           [] pairs"

text \<open>The classes \<open>\w\<close>, \<open>[\w\.-]\<close> and \<open>[a-z]\<close>, and the five patterns of \<open>normalize_text\<close>.\<close>

definition isword :: "platform \<Rightarrow> nat \<Rightarrow> bool" where
  "isword P c \<longleftrightarrow> isalnum P c \<or> c = 95"

definition rx_url :: "platform \<Rightarrow> rx" where
  "rx_url P = Cat (lits (str ''http'')) (Cat (Opt (Lit 115))
                (Cat (lits (str ''://'')) (Rep 1 (\<lambda>c. \<not> isspace P c))))"

definition rx_email :: "platform \<Rightarrow> rx" where
  "rx_email P =
     (let local = (\<lambda>c. isword P c \<or> c = 46 \<or> c = 45) in
      Cat WordB (Cat (Rep 1 local) (Cat (Lit 64) (Cat (Rep 1 local)
        (Cat (Lit 46) (Cat (Rep 2 (\<lambda>c. 97 \<le> c \<and> c \<le> 122)) WordB))))))"

definition normalize_text :: "platform \<Rightarrow> pystr \<Rightarrow> pystr" where
  "normalize_text P text =
     (let s = nfkc P text;
          s = lower P s;
          s = re_sub (isword P) (rx_url P) (str '' url '') s;
          s = re_sub (isword P) (rx_email P) (str '' email '') s;
          s = re_sub (isword P) (Rep 1 (isdecimal P)) (str '' 0 '') s;
          s = re_sub (isword P) (One (\<lambda>c. \<not> isword P c \<and> \<not> isspace P c)) (str '' '') s;
          s = strip P (re_sub (isword P) (Rep 1 (isspace P)) (str '' '') s)
      in s)"

definition tokenize :: "platform \<Rightarrow> pystr \<Rightarrow> pystr list" where
  "tokenize P text = re_findall (isword P) (Rep 1 (isword P)) text"

definition jaccard_similarity :: "pystr list \<Rightarrow> pystr list \<Rightarrow> rat" where
  "jaccard_similarity tokens_a tokens_b =
     (let set_a = set tokens_a; set_b = set tokens_b in
      if set_a = {} \<and> set_b = {} then 1
      else if set_a = {} \<or> set_b = {} then 0
      else let inter = card (set_a \<inter> set_b); union = card (set_a \<union> set_b)
           in if union \<noteq> 0 then int_truediv inter union else 0)"

subsection \<open>difflib.SequenceMatcher(None, a, b).ratio()\<close>

text \<open>
  \<open>difflib_similarity\<close> calls the standard library's \<open>SequenceMatcher\<close> with no junk
  predicate and \<open>autojunk\<close> left on. The definitions follow the library's
  \<open>__chain_b\<close>, \<open>find_longest_match\<close>, \<open>get_matching_blocks\<close> and \<open>ratio\<close>.

  \<open>chain_b b\<close> is the dictionary \<open>b2j\<close>: for each element of \<open>b\<close> the increasing list
  of the positions where it stands, and, when \<open>b\<close> has 200 elements or more, without
  the elements that stand at more than \<open>n // 100 + 1\<close> positions. The junk set is empty.
\<close>

definition b2j_build :: "pystr \<Rightarrow> nat \<rightharpoonup> nat list" where
  "b2j_build b =
     foldl (\<lambda>b2j (i, elt). b2j(elt \<mapsto> (case b2j elt of None \<Rightarrow> [] | Some indices \<Rightarrow> indices) @ [i]))
           Map.empty (enumerate 0 b)"

definition chain_b :: "pystr \<Rightarrow> nat \<rightharpoonup> nat list" where
  "chain_b b =
     (let b2j = b2j_build b; n = length b in
      if 200 \<le> n
      then (let ntest = n div 100 + 1 in
            (\<lambda>elt. case b2j elt of None \<Rightarrow> None
                    | Some idxs \<Rightarrow> if ntest < length idxs then None else Some idxs))
      else b2j)"

text \<open>
  A match \<open>(i, j, k)\<close> says \<open>a[i:i+k] == b[j:j+k]\<close>. \<open>flm_row\<close> is the loop over
  \<open>j\<close> of \<open>find_longest_match\<close> for one \<open>i\<close>, with its \<open>continue\<close> and \<open>break\<close>;
  \<open>j2len.get(j - 1, 0)\<close> is 0 at \<open>j = 0\<close>, where the key is \<open>-1\<close>. \<open>flm_step\<close> is
  the body of the loop over \<open>i\<close>. \<open>extend_left\<close> and \<open>extend_right\<close> are the two
  loops that extend the best match by elements that are not junk; the two loops
  that would add junk do nothing, since no element is junk.
\<close>

type_synonym match = "nat \<times> nat \<times> nat"

fun flm_row :: "nat \<Rightarrow> nat \<Rightarrow> nat \<Rightarrow> (nat \<rightharpoonup> nat) \<Rightarrow> nat list \<Rightarrow> (nat \<rightharpoonup> nat) \<times> match
                 \<Rightarrow> (nat \<rightharpoonup> nat) \<times> match" where
  "flm_row i blo bhi j2len [] st = st"
| "flm_row i blo bhi j2len (j # js) (newj2len, besti, bestj, bestsize) =
     (if j < blo then flm_row i blo bhi j2len js (newj2len, besti, bestj, bestsize)
      else if bhi \<le> j then (newj2len, besti, bestj, bestsize)
      else let k = (if j = 0 then 0 else case j2len (j - 1) of None \<Rightarrow> 0 | Some l \<Rightarrow> l) + 1
           in flm_row i blo bhi j2len js
                (newj2len(j \<mapsto> k),
                 if bestsize < k then (Suc i - k, Suc j - k, k) else (besti, bestj, bestsize)))"

definition flm_step :: "pystr \<Rightarrow> (nat \<rightharpoonup> nat list) \<Rightarrow> nat \<Rightarrow> nat \<Rightarrow> (nat \<rightharpoonup> nat) \<times> match \<Rightarrow> nat
                        \<Rightarrow> (nat \<rightharpoonup> nat) \<times> match" where
  "flm_step a b2j blo bhi = (\<lambda>(j2len, best) i.
     flm_row i blo bhi j2len (case b2j (a ! i) of None \<Rightarrow> [] | Some js \<Rightarrow> js) (Map.empty, best))"

definition flm_rows :: "pystr \<Rightarrow> (nat \<rightharpoonup> nat list) \<Rightarrow> nat \<Rightarrow> nat \<Rightarrow> nat \<Rightarrow> nat \<Rightarrow> (nat \<rightharpoonup> nat) \<times> match" where
  "flm_rows a b2j alo ahi blo bhi =
     foldl (flm_step a b2j blo bhi) (Map.empty, (alo, blo, 0)) [alo..<ahi]"

function extend_left :: "pystr \<Rightarrow> pystr \<Rightarrow> nat \<Rightarrow> nat \<Rightarrow> match \<Rightarrow> match" where
  "extend_left a b alo blo (besti, bestj, bestsize) =
     (if alo < besti \<and> blo < bestj \<and> a ! (besti - 1) = b ! (bestj - 1)
      then extend_left a b alo blo (besti - 1, bestj - 1, bestsize + 1)
      else (besti, bestj, bestsize))"
  by pat_completeness auto
termination
  by (relation "measure (\<lambda>(a, b, alo, blo, besti, bestj, bestsize). besti)") auto

function extend_right :: "pystr \<Rightarrow> pystr \<Rightarrow> nat \<Rightarrow> nat \<Rightarrow> match \<Rightarrow> match" where
  "extend_right a b ahi bhi (besti, bestj, bestsize) =
     (if besti + bestsize < ahi \<and> bestj + bestsize < bhi
         \<and> a ! (besti + bestsize) = b ! (bestj + bestsize)
      then extend_right a b ahi bhi (besti, bestj, bestsize + 1)
      else (besti, bestj, bestsize))"
  by pat_completeness auto
termination
  by (relation "measure (\<lambda>(a, b, ahi, bhi, besti, bestj, bestsize). ahi - (besti + bestsize))") auto

definition find_longest_match :: "pystr \<Rightarrow> pystr \<Rightarrow> (nat \<rightharpoonup> nat list) \<Rightarrow> nat \<Rightarrow> nat \<Rightarrow> nat \<Rightarrow> nat \<Rightarrow> match" where
  "find_longest_match a b b2j alo ahi blo bhi =
     extend_right a b ahi bhi (extend_left a b alo blo (snd (flm_rows a b2j alo ahi blo bhi)))"

text \<open>
  The loop of \<open>get_matching_blocks\<close>: \<open>queue.pop()\<close> takes the last element and
  \<open>queue.append\<close> adds one at the end. Then the blocks are sorted, adjacent blocks
  are merged and the sentinel \<open>(la, lb, 0)\<close> is added. That the loop terminates is
  proved below, from the bounds of the match that \<open>find_longest_match\<close> returns.
\<close>

function gmb_loop :: "pystr \<Rightarrow> pystr \<Rightarrow> (nat \<rightharpoonup> nat list) \<Rightarrow> (nat \<times> nat \<times> nat \<times> nat) list
                      \<Rightarrow> match list \<Rightarrow> match list" where
  "gmb_loop a b b2j queue matching_blocks =
     (if queue = [] then matching_blocks
      else case last queue of (alo, ahi, blo, bhi) \<Rightarrow>
        (case find_longest_match a b b2j alo ahi blo bhi of (i, j, k) \<Rightarrow>
           if k \<noteq> 0
           then gmb_loop a b b2j
                  (butlast queue
                   @ (if alo < i \<and> blo < j then [(alo, i, blo, j)] else [])
                   @ (if i + k < ahi \<and> j + k < bhi then [(i + k, ahi, j + k, bhi)] else []))
                  (matching_blocks @ [(i, j, k)])
           else gmb_loop a b b2j (butlast queue) matching_blocks))"
  by pat_completeness auto

fun collapse :: "match \<Rightarrow> match list \<Rightarrow> match list \<Rightarrow> match list" where
  "collapse (i1, j1, k1) [] non_adjacent =
     (if k1 \<noteq> 0 then non_adjacent @ [(i1, j1, k1)] else non_adjacent)"
| "collapse (i1, j1, k1) ((i2, j2, k2) # blocks) non_adjacent =
     (if i1 + k1 = i2 \<and> j1 + k1 = j2 then collapse (i1, j1, k1 + k2) blocks non_adjacent
      else collapse (i2, j2, k2) blocks
             (if k1 \<noteq> 0 then non_adjacent @ [(i1, j1, k1)] else non_adjacent))"

definition get_matching_blocks :: "pystr \<Rightarrow> pystr \<Rightarrow> match list" where
  "get_matching_blocks a b =
     (let la = length a; lb = length b;
          matching_blocks = sort (gmb_loop a b (chain_b b) [(0, la, 0, lb)] [])
      in collapse (0, 0, 0) matching_blocks [] @ [(la, lb, 0)])"

definition calculate_ratio :: "nat \<Rightarrow> nat \<Rightarrow> rat" where
  "calculate_ratio matches len =
     (if len \<noteq> 0 then float_div (float_mul 2 (float_of_nat matches)) (float_of_nat len) else 1)"

definition ratio :: "pystr \<Rightarrow> pystr \<Rightarrow> rat" where
  "ratio a b =
     (let matches = sum_list (map (\<lambda>(i, j, k). k) (get_matching_blocks a b))
      in calculate_ratio matches (length a + length b))"

definition difflib_similarity :: "pystr \<Rightarrow> pystr \<Rightarrow> rat" where
  "difflib_similarity a b = ratio a b"

subsection \<open>The store on disk and csv.DictReader\<close>

text \<open>
  The file system maps a path to the text of the file there. Opening a path of
  \<open>unwritable\<close> for writing raises \<open>OSError\<close>; a write to an open file does not fail.
\<close>

record fs =
  files :: "pystr \<rightharpoonup> pystr"
  unwritable :: "pystr set"

text \<open>
  \<open>csv.DictReader\<close>: the first row the reader yields is \<open>fieldnames\<close>; every later
  row that is not empty becomes \<open>dict(zip(fieldnames, row))\<close>, and a field name with
  no cell gets \<open>None\<close>. Surplus cells go under the key \<open>None\<close>, which no column
  name can look up: that entry is left out.
\<close>

definition dict_row :: "pystr list \<Rightarrow> pystr list \<Rightarrow> (pystr \<times> pystr option) list" where
  "dict_row fieldnames row =
     foldl (\<lambda>d key. dict_set d key None)
           (foldl (\<lambda>d (key, cell). dict_set d key (Some cell)) [] (zip fieldnames row))
           (drop (length row) fieldnames)"

definition dict_rows :: "pystr list \<Rightarrow> pystr list list \<Rightarrow> (pystr \<times> pystr option) list list" where
  "dict_rows fieldnames rows = map (dict_row fieldnames) (filter (\<lambda>row. row \<noteq> []) rows)"

definition reader_fieldnames :: "pystr list list \<Rightarrow> pystr list" where
  "reader_fieldnames rows = (case rows of [] \<Rightarrow> [] | header # _ \<Rightarrow> header)"

subsection \<open>main\<close>

record guard_args =
  g_pairs :: "pystr list"
  g_file :: pystr
  check_col :: pystr
  threshold :: pyfloat
  token_threshold :: pyfloat
  no_normalize :: bool
  min_length :: int

text \<open>
  The defaults of \<open>--threshold\<close> and \<open>--token-threshold\<close>: the floats that the
  literals \<open>0.78\<close> and \<open>0.60\<close> denote.
\<close>

definition default_threshold :: pyfloat where
  "default_threshold = Finite (round53 (78 / 100))"

definition default_token_threshold :: pyfloat where
  "default_token_threshold = Finite (round53 (60 / 100))"

text \<open>
  One constructor for each place where \<open>main\<close> prints and returns; \<open>exit_code\<close> is
  the value returned there. \<open>Rejected i sim_char sim_tok existing proposed\<close> carries
  what the rejection prints (the row is printed as \<open>i + 2\<close>).
\<close>

datatype verdict =
    PassNoFile
  | ErrorMissingColumn
  | PassColumnAbsent
  | PassBelowMinLength
  | Rejected nat rat rat pystr pystr
  | ErrorReading
  | PassUnique

fun exit_code :: "verdict \<Rightarrow> int" where
  "exit_code PassNoFile = 0"
| "exit_code ErrorMissingColumn = 1"
| "exit_code PassColumnAbsent = 0"
| "exit_code PassBelowMinLength = 0"
| "exit_code (Rejected i sim_char sim_tok existing proposed) = 1"
| "exit_code ErrorReading = 1"
| "exit_code PassUnique = 0"

text \<open>The loop \<open>for i, row in enumerate(reader)\<close>, from the row with index \<open>i\<close> on.\<close>

fun scan_rows :: "platform \<Rightarrow> guard_args \<Rightarrow> pystr \<Rightarrow> pystr \<Rightarrow> pystr list \<Rightarrow> nat
                  \<Rightarrow> (pystr \<times> pystr option) list list \<Rightarrow> verdict option" where
  "scan_rows P args target_content norm_new tokens_new i [] = None"
| "scan_rows P args target_content norm_new tokens_new i (row # rows) =
     (let existing_val = (case map_of row (check_col args) of Some (Some v) \<Rightarrow> v | _ \<Rightarrow> []);
          norm_old = (if no_normalize args then existing_val else normalize_text P existing_val);
          tokens_old = tokenize P norm_old;
          sim_char = difflib_similarity norm_new norm_old;
          sim_tok = jaccard_similarity tokens_new tokens_old
      in if float_gt sim_char (threshold args) \<or> float_gt sim_tok (token_threshold args)
         then Some (Rejected i sim_char sim_tok existing_val target_content)
         else scan_rows P args target_content norm_new tokens_new (Suc i) rows)"

definition guard_main :: "platform \<Rightarrow> fs \<Rightarrow> guard_args \<Rightarrow> verdict" where
  "guard_main P disk args =
     (let new_data = guard_parse_pairs P (g_pairs args) in
      case files disk (g_file args) of
        None \<Rightarrow> PassNoFile
      | Some text \<Rightarrow>
          (case map_of new_data (check_col args) of
             None \<Rightarrow> ErrorMissingColumn
           | Some target_content \<Rightarrow>
               if target_content = [] then ErrorMissingColumn
               else case csv_reader P text of (rows, failed) \<Rightarrow>
                 if rows = [] \<and> failed then ErrorReading
                 else if check_col args \<notin> set (reader_fieldnames rows) then PassColumnAbsent
                 else let norm_new = (if no_normalize args then target_content
                                      else normalize_text P target_content);
                          tokens_new = tokenize P norm_new
                      in if min_length args \<noteq> 0 \<and> int (length norm_new) < min_length args
                         then PassBelowMinLength
                         else case scan_rows P args target_content norm_new tokens_new 0
                                     (dict_rows (reader_fieldnames rows) (tl rows)) of
                                Some rejected \<Rightarrow> rejected
                              | None \<Rightarrow> if failed then ErrorReading else PassUnique))"







section \<open>dataset_append.py\<close>

text \<open>
  \<open>parse_pairs\<close> of the append script raises \<open>ValueError\<close> at the first pair that has
  no \<open>=\<close> or whose stripped key is empty.
\<close>

datatype value_error = InvalidPair pystr | EmptyKey pystr

fun parse_pairs_loop :: "platform \<Rightarrow> (pystr \<times> pystr) list \<Rightarrow> pystr list
                         \<Rightarrow> value_error + (pystr \<times> pystr) list" where
  "parse_pairs_loop P data [] = Inr data"
| "parse_pairs_loop P data (raw # pairs) =
     (if 61 \<notin> set raw then Inl (InvalidPair raw)
      else let (key, val) = split_eq raw;
               key = strip P key;
               val = rstrip_newlines val
           in if key = [] then Inl (EmptyKey raw)
              else parse_pairs_loop P (dict_set data key val) pairs)"

definition append_parse_pairs :: "platform \<Rightarrow> pystr list \<Rightarrow> value_error + (pystr \<times> pystr) list" where
  "append_parse_pairs P pairs = parse_pairs_loop P [] pairs"

definition exists_and_nonempty :: "fs \<Rightarrow> pystr \<Rightarrow> bool" where
  "exists_and_nonempty disk path = (case files disk path of None \<Rightarrow> False | Some t \<Rightarrow> t \<noteq> [])"

definition resolve_stamped_path :: "platform \<Rightarrow> fs \<Rightarrow> pystr \<Rightarrow> bool \<Rightarrow> pystr \<times> bool" where
  "resolve_stamped_path P disk path enable_stamping =
     (if \<not> enable_stamping \<or> exists_and_nonempty disk path then (path, False)
      else let directory = dirname P path;
               base = basename P path;
               (root, ext) = splitext P base;
               ext = (if ext = [] then str ''.csv'' else ext);
               stamped = root @ str ''_'' @ filename_timestamp P @ ext;
               resolved = path_join P directory stamped
           in (resolved, True))"

datatype io_error = ReadFailed | WriteFailed

definition read_existing_csv :: "platform \<Rightarrow> fs \<Rightarrow> pystr
     \<Rightarrow> io_error + (pystr list \<times> (pystr \<times> pystr option) list list)" where
  "read_existing_csv P disk path =
     (case files disk path of
        None \<Rightarrow> Inl ReadFailed
      | Some text \<Rightarrow>
          (case csv_reader P text of (rows, failed) \<Rightarrow>
             if failed then Inl ReadFailed
             else Inr (reader_fieldnames rows, dict_rows (reader_fieldnames rows) (tl rows))))"

text \<open>
  The cells \<open>DictWriter.writerow\<close> hands to the writer for \<open>{col: row.get(col, "") for
  col in columns}\<close>: one per column, in the order of \<open>columns\<close>. The writer writes
  \<open>None\<close> as the empty string.
\<close>

definition stored_cells :: "pystr list \<Rightarrow> (pystr \<times> pystr option) list \<Rightarrow> pystr list" where
  "stored_cells columns row =
     map (\<lambda>col. case map_of row col of Some (Some v) \<Rightarrow> v | _ \<Rightarrow> []) columns"

definition record_cells :: "pystr list \<Rightarrow> (pystr \<times> pystr) list \<Rightarrow> pystr list" where
  "record_cells columns row = map (\<lambda>col. case map_of row col of Some v \<Rightarrow> v | None \<Rightarrow> []) columns"

text \<open>
  \<open>write_full_csv\<close> opens with mode \<open>"w"\<close>, which empties the file, and writes the
  header and then one line for each row. \<open>full_csv_lines\<close> are the texts written,
  in order.
\<close>

definition full_csv_lines :: "platform \<Rightarrow> pystr list \<Rightarrow> (pystr \<times> pystr option) list list \<Rightarrow> pystr list" where
  "full_csv_lines P columns rows =
     csv_writerow P columns # map (\<lambda>row. csv_writerow P (stored_cells columns row)) rows"

definition write_full_csv :: "platform \<Rightarrow> fs \<Rightarrow> pystr \<Rightarrow> pystr list \<Rightarrow> (pystr \<times> pystr option) list list
                              \<Rightarrow> io_error + fs" where
  "write_full_csv P disk path columns rows =
     (if path \<in> unwritable disk then Inl WriteFailed
      else Inr (disk\<lparr>files := (files disk)(path \<mapsto> concat (full_csv_lines P columns rows))\<rparr>))"

text \<open>\<open>append_row_same_schema\<close> opens with mode \<open>"a"\<close> and writes one line at the end.\<close>

definition append_row_same_schema :: "platform \<Rightarrow> fs \<Rightarrow> pystr \<Rightarrow> pystr list \<Rightarrow> (pystr \<times> pystr) list
                                      \<Rightarrow> io_error + fs" where
  "append_row_same_schema P disk path columns row =
     (if path \<in> unwritable disk then Inl WriteFailed
      else Inr (disk\<lparr>files := (files disk)(path \<mapsto>
                  (case files disk path of None \<Rightarrow> [] | Some t \<Rightarrow> t)
                  @ csv_writerow P (record_cells columns row))\<rparr>))"

record append_args =
  a_pairs :: "pystr list"
  a_file :: pystr
  add_timestamp :: bool
  timestamp_col :: pystr
  quiet :: bool
  stamp_filename_on_create :: bool

text \<open>\<open>main\<close> returns its exit status; the second component is the disk it leaves.\<close>

definition append_main :: "platform \<Rightarrow> fs \<Rightarrow> append_args \<Rightarrow> int \<times> fs" where
  "append_main P disk args =
     (case append_parse_pairs P (a_pairs args) of
        Inl e \<Rightarrow> (2, disk)
      | Inr parsed \<Rightarrow>
          let row = (if add_timestamp args
                     then dict_set parsed (timestamp_col args) (iso_timestamp P) else parsed);
              (csv_path, stamped) =
                 resolve_stamped_path P disk (a_file args) (stamp_filename_on_create args)
          in if exists_and_nonempty disk csv_path
             then (case read_existing_csv P disk csv_path of
                     Inl e \<Rightarrow> (3, disk)
                   | Inr (existing_cols, existing_rows) \<Rightarrow>
                       let new_cols = filter (\<lambda>k. k \<notin> set existing_cols) (dict_keys row) in
                       if new_cols \<noteq> []
                       then (let all_cols = existing_cols @ new_cols in
                             case write_full_csv P disk csv_path all_cols existing_rows of
                               Inl e \<Rightarrow> (4, disk)
                             | Inr disk1 \<Rightarrow>
                                 (case append_row_same_schema P disk1 csv_path all_cols row of
                                    Inl e \<Rightarrow> (4, disk1)
                                  | Inr disk2 \<Rightarrow> (0, disk2)))
                       else (case append_row_same_schema P disk csv_path existing_cols row of
                               Inl e \<Rightarrow> (5, disk)
                             | Inr disk1 \<Rightarrow> (0, disk1)))
             else (let columns = dict_keys row in
                   case write_full_csv P disk csv_path columns [] of
                     Inl e \<Rightarrow> (6, disk)
                   | Inr disk1 \<Rightarrow>
                       (case append_row_same_schema P disk1 csv_path columns row of
                          Inl e \<Rightarrow> (6, disk1)
                        | Inr disk2 \<Rightarrow> (0, disk2))))"



section \<open>A platform to compute with\<close>

text \<open>
  An ASCII platform, for evaluating the definitions at concrete inputs: no Unicode
  normalisation, ASCII letters, digits and blanks, cells joined by commas and lines
  ended by a line feed, and no directories.
\<close>

fun split_on :: "nat \<Rightarrow> pystr \<Rightarrow> pystr \<Rightarrow> pystr list" where
  "split_on sep cur [] = [rev cur]"
| "split_on sep cur (c # cs) = (if c = sep then rev cur # split_on sep [] cs else split_on sep (c # cur) cs)"

fun join_with :: "nat \<Rightarrow> pystr list \<Rightarrow> pystr" where
  "join_with sep [] = []"
| "join_with sep [x] = x"
| "join_with sep (x # xs) = x @ sep # join_with sep xs"

definition plain_reader :: "pystr \<Rightarrow> pystr list list \<times> bool" where
  "plain_reader t =
     (map (\<lambda>line. if line = [] then [] else split_on 44 [] line) (butlast (split_on 10 [] t)), False)"

definition ascii :: platform where
  "ascii = \<lparr> nfkc = (\<lambda>s. s),
             lower = map (\<lambda>c. if 65 \<le> c \<and> c \<le> 90 then c + 32 else c),
             isalnum = (\<lambda>c. (48 \<le> c \<and> c \<le> 57) \<or> (65 \<le> c \<and> c \<le> 90) \<or> (97 \<le> c \<and> c \<le> 122)),
             isdecimal = (\<lambda>c. 48 \<le> c \<and> c \<le> 57),
             isspace = (\<lambda>c. (9 \<le> c \<and> c \<le> 13) \<or> (28 \<le> c \<and> c \<le> 32)),
             csv_reader = plain_reader,
             csv_writerow = (\<lambda>cells. join_with 44 cells @ [10]),
             dirname = (\<lambda>path. []),
             basename = (\<lambda>path. path),
             splitext = (\<lambda>path. (takeWhile (\<lambda>c. c \<noteq> 46) path, dropWhile (\<lambda>c. c \<noteq> 46) path)),
             path_join = (\<lambda>directory name. directory @ name),
             iso_timestamp = str ''2026-01-07T12:13:14Z'',
             filename_timestamp = str ''20260107T121314Z'' \<rparr>"

text \<open>A store of one column and one row, and arguments of the append script on it.\<close>

definition demo_disk :: fs where
  "demo_disk = \<lparr> files = [str ''d.csv'' \<mapsto> str ''a\<newline>x\<newline>''], unwritable = {} \<rparr>"

definition demo_append_args :: "string list \<Rightarrow> append_args" where
  "demo_append_args ps = \<lparr> a_pairs = map str ps, a_file = str ''d.csv'', add_timestamp = False,
      timestamp_col = str ''timestamp'', quiet = True, stamp_filename_on_create = True \<rparr>"

text \<open>Arguments of the guard on that store, with the default options.\<close>

definition demo_guard_args :: "string list \<Rightarrow> guard_args" where
  "demo_guard_args ps = \<lparr> g_pairs = map str ps, g_file = str ''d.csv'', check_col = str ''a'',
      threshold = default_threshold, token_threshold = default_token_threshold,
      no_normalize = False, min_length = 0 \<rparr>"

text \<open>A disk with no file.\<close>

definition no_disk :: fs where
  "no_disk = \<lparr> files = Map.empty, unwritable = {} \<rparr>"


section \<open>Notions for the proofs about the matcher\<close>




text \<open>
  \<open>run np i\<close> is the number of consecutive positions up to \<open>i\<close> that satisfy
  \<open>np\<close>: the length of the longest block of kept elements that ends at \<open>i\<close> on
  the diagonal.
\<close>

fun run :: "(nat \<Rightarrow> bool) \<Rightarrow> nat \<Rightarrow> nat" where
  "run np 0 = (if np 0 then 1 else 0)"
| "run np (Suc i) = (if np (Suc i) then Suc (run np i) else 0)"


section \<open>Termination of the loop of get_matching_blocks\<close>

text \<open>
  The match found lies inside the rows \<open>alo..<ahi\<close>; the loop of
  \<open>get_matching_blocks\<close> terminates by this.
\<close>

lemma flm_row_bounds:
  assumes "\<forall>j l. j2len j = Some l \<longrightarrow> l \<le> i - alo" "alo \<le> i" "i < ahi"
    and "\<forall>j l. new j = Some l \<longrightarrow> l \<le> Suc i - alo"
    and "alo \<le> bi \<and> bi + bs \<le> ahi"
    and "flm_row i blo bhi j2len js (new, bi, bj, bs) = (new', bi', bj', bs')"
  shows "(\<forall>j l. new' j = Some l \<longrightarrow> l \<le> Suc i - alo) \<and> alo \<le> bi' \<and> bi' + bs' \<le> ahi"
  using assms(4-6)
proof (induction js arbitrary: new bi bj bs)
  case Nil
  then show ?case by simp
next
  case (Cons j js)
  define k where "k = (if j = 0 then 0 else case j2len (j - 1) of None \<Rightarrow> 0 | Some l \<Rightarrow> l) + 1"
  have "(if j = 0 then 0 else case j2len (j - 1) of None \<Rightarrow> 0 | Some l \<Rightarrow> l) \<le> i - alo"
    using assms(1) by (cases "j2len (j - 1)") auto
  then have k: "k \<le> Suc i - alo" "0 < k"
    using assms(2) by (simp_all add: k_def)
  show ?case
  proof (cases "j < blo")
    case True
    with Cons.prems(3) have "flm_row i blo bhi j2len js (new, bi, bj, bs) = (new', bi', bj', bs')" by simp
    from Cons.IH[OF Cons.prems(1,2) this] show ?thesis .
  next
    case False
    show ?thesis
    proof (cases "bhi \<le> j")
      case True
      with False Cons.prems show ?thesis by simp
    next
      case inside: False
      show ?thesis
      proof (cases "bs < k")
        case True
        with False inside Cons.prems(3)
        have run: "flm_row i blo bhi j2len js (new(j \<mapsto> k), Suc i - k, Suc j - k, k) = (new', bi', bj', bs')"
          by (simp add: k_def)
        have "\<forall>j' l. (new(j \<mapsto> k)) j' = Some l \<longrightarrow> l \<le> Suc i - alo"
          using Cons.prems(1) k by auto
        moreover have "alo \<le> Suc i - k \<and> Suc i - k + k \<le> ahi" using k assms(2,3) by auto
        ultimately show ?thesis using run by (rule Cons.IH)
      next
        case keep: False
        with False inside Cons.prems(3)
        have run: "flm_row i blo bhi j2len js (new(j \<mapsto> k), bi, bj, bs) = (new', bi', bj', bs')"
          by (simp add: k_def)
        have "\<forall>j' l. (new(j \<mapsto> k)) j' = Some l \<longrightarrow> l \<le> Suc i - alo"
          using Cons.prems(1) k by auto
        then show ?thesis using Cons.prems(2) run by (rule Cons.IH)
      qed
    qed
  qed
qed

lemma flm_rows_bounds_aux:
  assumes "alo \<le> n" "n \<le> ahi"
    and "foldl (flm_step a b2j blo bhi) (Map.empty, (alo, blo, 0)) [alo..<n] = (j2len, bi, bj, bs)"
  shows "(\<forall>j l. j2len j = Some l \<longrightarrow> l \<le> n - alo) \<and> alo \<le> bi \<and> bi + bs \<le> ahi"
  using assms
proof (induction n arbitrary: j2len bi bj bs)
  case 0
  then show ?case by auto
next
  case (Suc n)
  show ?case
  proof (cases "alo \<le> n")
    case False
    with Suc.prems have "alo = Suc n" by simp
    with Suc.prems show ?thesis by auto
  next
    case True
    obtain j0 bi0 bj0 bs0 where prev:
      "foldl (flm_step a b2j blo bhi) (Map.empty, (alo, blo, 0)) [alo..<n] = (j0, bi0, bj0, bs0)"
      by (metis prod_cases4)
    from Suc.prems(2) have "n \<le> ahi" by simp
    from Suc.IH[OF True this prev]
    have ih: "\<forall>j l. j0 j = Some l \<longrightarrow> l \<le> n - alo" "alo \<le> bi0 \<and> bi0 + bs0 \<le> ahi" by auto
    have "flm_row n blo bhi j0 (case b2j (a ! n) of None \<Rightarrow> [] | Some js \<Rightarrow> js) (Map.empty, bi0, bj0, bs0)
            = (j2len, bi, bj, bs)"
      using Suc.prems(3) True prev by (simp add: flm_step_def)
    from flm_row_bounds[OF ih(1) True _ _ ih(2) this] Suc.prems(2)
    show ?thesis by simp
  qed
qed

lemma flm_rows_bounds:
  assumes "flm_rows a b2j alo ahi blo bhi = (j2len, bi, bj, bs)"
  shows "alo \<le> bi \<and> (if alo \<le> ahi then bi + bs \<le> ahi else bi = alo \<and> bs = 0)"
proof (cases "alo \<le> ahi")
  case True
  from assms have "foldl (flm_step a b2j blo bhi) (Map.empty, (alo, blo, 0)) [alo..<ahi] = (j2len, bi, bj, bs)"
    by (simp add: flm_rows_def)
  from flm_rows_bounds_aux[OF True le_refl this] True show ?thesis by simp
next
  case False
  with assms show ?thesis by (auto simp add: flm_rows_def)
qed

lemma extend_left_bounds:
  "extend_left a b alo blo (bi, bj, bs) = (bi', bj', bs') \<Longrightarrow> alo \<le> bi
   \<Longrightarrow> alo \<le> bi' \<and> bi' + bs' = bi + bs \<and> bs \<le> bs'"
proof (induction a b alo blo "(bi, bj, bs)" arbitrary: bi bj bs rule: extend_left.induct)
  case (1 a b alo blo besti bestj bestsize)
  show ?case
  proof (cases "alo < besti \<and> blo < bestj \<and> a ! (besti - 1) = b ! (bestj - 1)")
    case True
    with "1.prems" have "extend_left a b alo blo (besti - 1, bestj - 1, bestsize + 1) = (bi', bj', bs')"
      by simp
    moreover from True have "alo < besti" by blast
    then have "alo \<le> besti - 1" by simp
    ultimately have "alo \<le> bi' \<and> bi' + bs' = besti - 1 + (bestsize + 1) \<and> bestsize + 1 \<le> bs'"
      by (rule "1.hyps"[OF True])
    with \<open>alo < besti\<close> show ?thesis by simp
  next
    case False
    with "1.prems" show ?thesis by auto
  qed
qed

lemma extend_right_bounds:
  "extend_right a b ahi bhi (bi, bj, bs) = (bi', bj', bs') \<Longrightarrow> bi + bs \<le> ahi \<or> bs = 0
   \<Longrightarrow> bi' = bi \<and> bs \<le> bs' \<and> (bi' + bs' \<le> ahi \<or> bs' = 0)"
proof (induction a b ahi bhi "(bi, bj, bs)" arbitrary: bi bj bs rule: extend_right.induct)
  case (1 a b ahi bhi besti bestj bestsize)
  show ?case
  proof (cases "besti + bestsize < ahi \<and> bestj + bestsize < bhi
         \<and> a ! (besti + bestsize) = b ! (bestj + bestsize)")
    case True
    with "1.prems" have "extend_right a b ahi bhi (besti, bestj, bestsize + 1) = (bi', bj', bs')"
      by simp
    moreover from True have "besti + bestsize < ahi" by blast
    then have "besti + (bestsize + 1) \<le> ahi \<or> bestsize + 1 = 0" by simp
    ultimately have "bi' = besti \<and> bestsize + 1 \<le> bs' \<and> (bi' + bs' \<le> ahi \<or> bs' = 0)"
      by (rule "1.hyps"[OF True])
    then show ?thesis by auto
  next
    case False
    with "1.prems" show ?thesis by auto
  qed
qed

lemma find_longest_match_bounds:
  assumes "find_longest_match a b b2j alo ahi blo bhi = (i, j, k)"
  shows "alo \<le> i \<and> (i + k \<le> ahi \<or> k = 0)"
proof -
  obtain j2len bi bj bs where r: "flm_rows a b2j alo ahi blo bhi = (j2len, bi, bj, bs)"
    by (metis prod_cases4)
  obtain ci cj cs where l: "extend_left a b alo blo (bi, bj, bs) = (ci, cj, cs)"
    by (metis prod_cases3)
  from assms r l have e: "extend_right a b ahi bhi (ci, cj, cs) = (i, j, k)"
    by (simp add: find_longest_match_def)
  from flm_rows_bounds[OF r]
  have b0: "alo \<le> bi" "if alo \<le> ahi then bi + bs \<le> ahi else bi = alo \<and> bs = 0" by auto
  from extend_left_bounds[OF l b0(1)] have b1: "alo \<le> ci" "ci + cs = bi + bs" "bs \<le> cs" by auto
  have "ci + cs \<le> ahi \<or> cs = 0"
  proof (cases "alo \<le> ahi")
    case True
    with b0(2) b1(2) show ?thesis by simp
  next
    case False
    with b0(2) l show ?thesis by simp
  qed
  from extend_right_bounds[OF e this] b1(1) show ?thesis by auto
qed

text \<open>
  Each turn of the loop takes a range off the queue and puts back at most the two
  ranges on either side of the match found in it, which together are shorter.
\<close>

termination gmb_loop
proof (relation "measure (\<lambda>(a, b, b2j, queue, blocks).
                   sum_list (map (\<lambda>(alo, ahi, blo, bhi). 2 * (ahi - alo) + 1) queue))", goal_cases)
  case 1
  show ?case by simp
next
  case (2 a b b2j queue blocks alo y ahi ya blo bhi i yc j k)
  then have "last queue = (alo, ahi, blo, bhi)" by simp
  with 2(1) have q: "queue = butlast queue @ [(alo, ahi, blo, bhi)]"
    by (metis append_butlast_last_id)
  from 2 have "find_longest_match a b b2j alo ahi blo bhi = (i, j, k)" by simp
  from find_longest_match_bounds[OF this] 2 have "alo \<le> i" "i + k \<le> ahi" "0 < k" by auto
  then show ?case by (subst (2) q) auto
next
  case (3 a b b2j queue blocks alo y ahi ya blo bhi i yc j k)
  then have "last queue = (alo, ahi, blo, bhi)" by simp
  with 3(1) have q: "queue = butlast queue @ [(alo, ahi, blo, bhi)]"
    by (metis append_butlast_last_id)
  show ?case by (subst (2) q) auto
qed

section \<open>Properties of the float model\<close>










lemma round53_one: "round53 1 = 1"
  by code_simp

lemma int_truediv_zero: "int_truediv 0 n = 0"
  by (simp add: int_truediv_def round53_def)

lemma int_truediv_self: "0 < n \<Longrightarrow> int_truediv n n = 1"
  by (simp add: int_truediv_def round53_one)

section \<open>Properties of the store\<close>







lemma demo_cells: "record_cells [str ''a'', str ''b''] [(str ''b'', str ''y''), (str ''c'', str ''z'')] = [[], str ''y'']"
  by (simp add: record_cells_def str_def)









section \<open>Properties of the two parsers\<close>

text \<open>
  The append script fails exactly on a list with a pair that has no \<open>=\<close> or an empty
  key, and 2 is the status of that failure alone. The guard reads the same list as
  if its pairs without \<open>=\<close> were not there.
\<close>

lemma parse_pairs_loop_fails_iff:
  "(\<exists>e. parse_pairs_loop P data pairs = Inl e)
   \<longleftrightarrow> (\<exists>raw \<in> set pairs. 61 \<notin> set raw \<or> strip P (fst (split_eq raw)) = [])"
  by (induction P data pairs rule: parse_pairs_loop.induct)
     (auto simp: Let_def split: prod.splits)

lemma append_main_status_2:
  "fst (append_main P disk args) = 2 \<longleftrightarrow> (\<exists>e. append_parse_pairs P (a_pairs args) = Inl e)"
proof (cases "append_parse_pairs P (a_pairs args)")
  case (Inl e)
  then show ?thesis by (simp add: append_main_def)
next
  case (Inr parsed)
  obtain x y where xy: "append_main P disk args = (x, y)" by (cases "append_main P disk args")
  have "x \<in> {0, 3, 4, 5, 6}"
    using xy unfolding append_main_def Inr
    by (simp add: Let_def split: prod.splits sum.splits if_splits)
  then show ?thesis using xy Inr by auto
qed

lemma guard_parse_pairs_skips:
  "guard_parse_pairs P pairs = guard_parse_pairs P (filter (\<lambda>raw. 61 \<in> set raw) pairs)"
proof -
  have "foldl (\<lambda>data raw. if 61 \<in> set raw
              then (let (key, val) = split_eq raw in dict_set data (strip P key) (strip P val))
              else data) d pairs
      = foldl (\<lambda>data raw. if 61 \<in> set raw
              then (let (key, val) = split_eq raw in dict_set data (strip P key) (strip P val))
              else data) d (filter (\<lambda>raw. 61 \<in> set raw) pairs)" for d
    by (induction pairs arbitrary: d) auto
  then show ?thesis by (simp add: guard_parse_pairs_def)
qed

lemma guard_parse_pairs_empty_key:
  "guard_parse_pairs P (pairs @ [61 # v]) = dict_set (guard_parse_pairs P pairs) [] (strip P v)"
  by (simp add: guard_parse_pairs_def split_eq_def strip_def)

lemma scan_rows_pairs:
  "scan_rows P (gargs\<lparr>g_pairs := ps\<rparr>) target norm_new tokens_new i rows
   = scan_rows P gargs target norm_new tokens_new i rows"
  by (induction rows arbitrary: i) (simp_all add: Let_def)

lemma guard_main_skips:
  "guard_main P gdisk (gargs\<lparr>g_pairs := pairs\<rparr>)
     = guard_main P gdisk (gargs\<lparr>g_pairs := filter (\<lambda>raw. 61 \<in> set raw) pairs\<rparr>)"
  by (simp add: guard_main_def scan_rows_pairs guard_parse_pairs_skips[of P pairs] Let_def
        cong: option.case_cong prod.case_cong if_cong)

section \<open>Properties of the guard's loop\<close>





lemma guard_main_early:
  "files disk (g_file args) = None \<Longrightarrow> guard_main P disk args = PassNoFile"
  "files disk (g_file args) \<noteq> None
     \<Longrightarrow> map_of (guard_parse_pairs P (g_pairs args)) (check_col args) \<in> {None, Some []}
     \<Longrightarrow> guard_main P disk args = ErrorMissingColumn"
  by (auto simp add: guard_main_def)

section \<open>Properties of the matcher\<close>




















declare extend_left.simps [simp del] extend_right.simps [simp del] gmb_loop.simps [simp del]




section \<open>Properties of normalisation\<close>


declare rx_scan.simps [simp del]










section \<open>Similarities at the default thresholds\<close>





section \<open>The definitions at concrete inputs\<close>


lemma demo_guard_unique:
  "guard_main ascii demo_disk (demo_guard_args [''a=q'', ''junk'', ''=v'']) = PassUnique"
  by code_simp





lemma demo_guard_args_pairs: "(demo_guard_args [])\<lparr>g_pairs := map str ps\<rparr> = demo_guard_args ps"
  by (simp add: demo_guard_args_def)

lemma demo_guard_store: "files demo_disk (g_file (demo_guard_args ps)) = Some (str ''a\<newline>x\<newline>'')"
  by (simp add: demo_disk_def demo_guard_args_def)


lemma demo_guard_proposed:
  "map_of (guard_parse_pairs ascii (g_pairs (demo_guard_args [''a=x''])))
          (check_col (demo_guard_args [''a=x''])) = Some (str ''x'')"
  "map_of (guard_parse_pairs ascii (g_pairs ((demo_guard_args [''t=x''])\<lparr>check_col := str ''t''\<rparr>)))
          (check_col ((demo_guard_args [''t=x''])\<lparr>check_col := str ''t''\<rparr>)) = Some (str ''x'')"
  "map_of (guard_parse_pairs ascii (g_pairs (demo_guard_args [''a=''])))
          (check_col (demo_guard_args [''a=''])) = Some []"
  "map_of (guard_parse_pairs ascii (g_pairs ((demo_guard_args [''b=y''])\<lparr>check_col := str ''t''\<rparr>)))
          (check_col ((demo_guard_args [''b=y''])\<lparr>check_col := str ''t''\<rparr>)) = None"
  by code_simp+











section \<open>The claims\<close>

text \<open>
  C4. For all token sequences, \<open>jaccard_similarity\<close> is 1.0 when both token sets are
  empty, 0.0 when exactly one is empty, and otherwise the quotient of the size of the
  intersection by the size of the union of the two token sets, as Python's division
  of two ints gives it (the float nearest to the quotient). It is therefore exactly
  0.0 for two disjoint non-empty sets and exactly 1.0 for two equal non-empty sets.
\<close>

theorem jaccard_similarity_cases:
  "(set ta = {} \<and> set tb = {} \<longrightarrow> jaccard_similarity ta tb = 1)
   \<and> ((set ta = {}) \<noteq> (set tb = {}) \<longrightarrow> jaccard_similarity ta tb = 0)
   \<and> (set ta \<noteq> {} \<and> set tb \<noteq> {} \<longrightarrow>
        jaccard_similarity ta tb
          = round53 (of_nat (card (set ta \<inter> set tb)) / of_nat (card (set ta \<union> set tb))))
   \<and> (set ta \<noteq> {} \<and> set tb \<noteq> {} \<and> set ta \<inter> set tb = {} \<longrightarrow> jaccard_similarity ta tb = 0)
   \<and> (set ta \<noteq> {} \<and> set ta = set tb \<longrightarrow> jaccard_similarity ta tb = 1)"
proof -
  have empty: "set ta = {} \<Longrightarrow> set tb = {} \<Longrightarrow> jaccard_similarity ta tb = 1"
    by (simp add: jaccard_similarity_def)
  have one: "(set ta = {}) \<noteq> (set tb = {}) \<Longrightarrow> jaccard_similarity ta tb = 0"
    by (auto simp add: jaccard_similarity_def)
  have both: "set ta \<noteq> {} \<Longrightarrow> set tb \<noteq> {} \<Longrightarrow>
      jaccard_similarity ta tb = int_truediv (card (set ta \<inter> set tb)) (card (set ta \<union> set tb))"
    by (simp add: jaccard_similarity_def Let_def)
  have same: "set ta \<noteq> {} \<Longrightarrow> set ta = set tb \<Longrightarrow> jaccard_similarity ta tb = 1"
  proof -
    assume ne: "set ta \<noteq> {}" and eq: "set ta = set tb"
    have "0 < card (set tb)" using ne eq by (simp add: card_gt_0_iff)
    then show ?thesis using both ne eq by (simp add: int_truediv_self)
  qed
  have disjoint: "set ta \<noteq> {} \<Longrightarrow> set tb \<noteq> {} \<Longrightarrow> set ta \<inter> set tb = {}
      \<Longrightarrow> jaccard_similarity ta tb = 0"
    using both by (simp add: int_truediv_zero)
  have quotient: "set ta \<noteq> {} \<Longrightarrow> set tb \<noteq> {} \<Longrightarrow>
      jaccard_similarity ta tb
        = round53 (of_nat (card (set ta \<inter> set tb)) / of_nat (card (set ta \<union> set tb)))"
    using both by (simp add: int_truediv_def)
  show ?thesis
    using empty one quotient same disjoint by blast
qed

theorem jaccard_similarity_cases_witness:
  "jaccard_similarity [] [] = 1
   \<and> jaccard_similarity [str ''a''] [] = 0
   \<and> jaccard_similarity [] [str ''a''] = 0
   \<and> jaccard_similarity [str ''a'', str ''b''] [str ''b'', str ''c'', str ''b''] = round53 (1 / 3)
   \<and> jaccard_similarity [str ''a'', str ''b''] [str ''c''] = 0
   \<and> jaccard_similarity [str ''a'', str ''b''] [str ''b'', str ''a'', str ''a''] = 1"
  using jaccard_similarity_cases [of "[]" "[]"]
    jaccard_similarity_cases [of "[str ''a'']" "[]"]
    jaccard_similarity_cases [of "[]" "[str ''a'']"]
    jaccard_similarity_cases [of "[str ''a'', str ''b'']" "[str ''b'', str ''c'', str ''b'']"]
    jaccard_similarity_cases [of "[str ''a'', str ''b'']" "[str ''c'']"]
    jaccard_similarity_cases [of "[str ''a'', str ''b'']" "[str ''b'', str ''a'', str ''a'']"]
  by (simp add: str_def insert_commute)

text \<open>
  C8. \<open>append_row_same_schema\<close> on a store with schema \<open>S\<close> and a record \<open>r\<close>
  adds one line at the end of the file and changes nothing before it: the text that
  was there stays as it was, and no other file changes. The line has one cell for
  each field of \<open>S\<close>, in the order of \<open>S\<close>: the value \<open>r\<close> gives the field, or
  the empty string when \<open>r\<close> has no such field; the fields of \<open>r\<close> that are not in
  \<open>S\<close> play no part. When the file cannot be opened the call raises and writes
  nothing.
\<close>

theorem append_row_same_schema_effect:
  "(path \<in> unwritable disk \<longrightarrow> append_row_same_schema P disk path S r = Inl WriteFailed)
   \<and> (path \<notin> unwritable disk \<longrightarrow>
        (\<exists>disk'. append_row_same_schema P disk path S r = Inr disk'
           \<and> files disk' path
               = Some ((case files disk path of None \<Rightarrow> [] | Some old \<Rightarrow> old)
                       @ csv_writerow P (record_cells S r))
           \<and> (\<forall>p. p \<noteq> path \<longrightarrow> files disk' p = files disk p)
           \<and> unwritable disk' = unwritable disk))
   \<and> length (record_cells S r) = length S
   \<and> (\<forall>i < length S. record_cells S r ! i = (case map_of r (S ! i) of Some v \<Rightarrow> v | None \<Rightarrow> []))
   \<and> record_cells S (filter (\<lambda>(k, v). k \<in> set S) r) = record_cells S r"
proof -
  have "map_of (filter (\<lambda>(k, v). k \<in> set S) r) col = map_of r col" if "col \<in> set S" for col
    using that by (induction r) auto
  then have "record_cells S (filter (\<lambda>(k, v). k \<in> set S) r) = record_cells S r"
    by (simp add: record_cells_def cong: map_cong)
  then show ?thesis
    by (simp add: append_row_same_schema_def record_cells_def)
qed


theorem append_row_same_schema_effect_witness:
  "(\<exists>disk'. append_row_same_schema ascii demo_disk (str ''d.csv'') [str ''a'', str ''b'']
           [(str ''b'', str ''y''), (str ''c'', str ''z'')] = Inr disk'
      \<and> files disk' (str ''d.csv'') = Some (str ''a\<newline>x\<newline>,y\<newline>''))
   \<and> record_cells [str ''a'', str ''b''] [(str ''b'', str ''y''), (str ''c'', str ''z'')] = [[], str ''y'']"
proof -
  have w: "str ''d.csv'' \<notin> unwritable demo_disk" by (simp add: demo_disk_def)
  have old: "files demo_disk (str ''d.csv'') = Some (str ''a\<newline>x\<newline>'')" by (simp add: demo_disk_def)
  have line: "csv_writerow ascii [[], str ''y''] = str '',y\<newline>''" by (simp add: ascii_def str_def)
  from append_row_same_schema_effect [of "str ''d.csv''" demo_disk ascii "[str ''a'', str ''b'']"
      "[(str ''b'', str ''y''), (str ''c'', str ''z'')]"] w
  obtain disk' where "append_row_same_schema ascii demo_disk (str ''d.csv'') [str ''a'', str ''b'']
           [(str ''b'', str ''y''), (str ''c'', str ''z'')] = Inr disk'"
     and "files disk' (str ''d.csv'') = Some ((case files demo_disk (str ''d.csv'') of None \<Rightarrow> [] | Some old \<Rightarrow> old)
                       @ csv_writerow ascii (record_cells [str ''a'', str ''b''] [(str ''b'', str ''y''), (str ''c'', str ''z'')]))"
    by blast
  moreover have "str ''a\<newline>x\<newline>'' @ str '',y\<newline>'' = str ''a\<newline>x\<newline>,y\<newline>''"
    by (simp add: str_def)
  ultimately show ?thesis by (simp add: demo_cells old line)
qed






text \<open>
  C9, as the code has it. The append script fails with status 2 exactly when the
  list has a pair without \<open>=\<close> or a pair whose key is empty once stripped; no other
  outcome has that status, and the store is then left as it was. The guard raises
  no such error: its verdict is the one it gives for the list without the pairs
  that have no \<open>=\<close>, and a pair with an empty key is kept under the empty name.
\<close>

theorem parse_pairs_invalid_input:
  "((\<exists>raw \<in> set (a_pairs args). 61 \<notin> set raw \<or> strip P (fst (split_eq raw)) = [])
      \<longleftrightarrow> fst (append_main P disk args) = 2)
   \<and> (fst (append_main P disk args) = 2 \<longrightarrow> snd (append_main P disk args) = disk)
   \<and> guard_main P gdisk (gargs\<lparr>g_pairs := pairs\<rparr>)
       = guard_main P gdisk (gargs\<lparr>g_pairs := filter (\<lambda>raw. 61 \<in> set raw) pairs\<rparr>)
   \<and> guard_parse_pairs P (pairs @ [61 # v]) = dict_set (guard_parse_pairs P pairs) [] (strip P v)"
proof -
  have a: "(\<exists>raw \<in> set (a_pairs args). 61 \<notin> set raw \<or> strip P (fst (split_eq raw)) = [])
      \<longleftrightarrow> fst (append_main P disk args) = 2"
    by (simp add: append_main_status_2 append_parse_pairs_def parse_pairs_loop_fails_iff)
  have b: "fst (append_main P disk args) = 2 \<longrightarrow> snd (append_main P disk args) = disk"
  proof
    assume "fst (append_main P disk args) = 2"
    then obtain e where "append_parse_pairs P (a_pairs args) = Inl e"
      by (auto simp: append_main_status_2)
    then show "snd (append_main P disk args) = disk" by (simp add: append_main_def)
  qed
  have c: "guard_main P gdisk (gargs\<lparr>g_pairs := pairs\<rparr>)
       = guard_main P gdisk (gargs\<lparr>g_pairs := filter (\<lambda>raw. 61 \<in> set raw) pairs\<rparr>)"
    by (rule guard_main_skips)
  show ?thesis using a b c guard_parse_pairs_empty_key by blast
qed

theorem parse_pairs_invalid_input_witness:
  "fst (append_main ascii demo_disk (demo_append_args [''b=y'', ''junk''])) = 2
   \<and> snd (append_main ascii demo_disk (demo_append_args [''b=y'', ''junk''])) = demo_disk
   \<and> guard_main ascii demo_disk (demo_guard_args [''a=q'', ''junk''])
       = guard_main ascii demo_disk (demo_guard_args [''a=q''])
   \<and> guard_parse_pairs ascii ([str ''a=q''] @ [61 # str ''v''])
       = dict_set (guard_parse_pairs ascii [str ''a=q'']) [] (strip ascii (str ''v''))"
proof -
  have bad: "\<exists>raw \<in> set (a_pairs (demo_append_args [''b=y'', ''junk''])).
               61 \<notin> set raw \<or> strip ascii (fst (split_eq raw)) = []"
    by (simp add: demo_append_args_def str_def)
  have f: "filter (\<lambda>raw. 61 \<in> set raw) (map str [''a=q'', ''junk'']) = map str [''a=q'']"
    by (simp add: str_def)
  from parse_pairs_invalid_input [where args = "demo_append_args [''b=y'', ''junk'']" and P = ascii
      and disk = demo_disk and gdisk = demo_disk and gargs = "demo_guard_args []"
      and pairs = "map str [''a=q'', ''junk'']" and v = "str ''v''"] bad
  have "fst (append_main ascii demo_disk (demo_append_args [''b=y'', ''junk''])) = 2"
    and "snd (append_main ascii demo_disk (demo_append_args [''b=y'', ''junk''])) = demo_disk"
    and "guard_main ascii demo_disk ((demo_guard_args [])\<lparr>g_pairs := map str [''a=q'', ''junk'']\<rparr>)
       = guard_main ascii demo_disk ((demo_guard_args [])\<lparr>g_pairs := filter (\<lambda>raw. 61 \<in> set raw) (map str [''a=q'', ''junk''])\<rparr>)"
    by blast+
  moreover from parse_pairs_invalid_input [where P = ascii and pairs = "[str ''a=q'']" and v = "str ''v''"]
  have "guard_parse_pairs ascii ([str ''a=q''] @ [61 # str ''v''])
       = dict_set (guard_parse_pairs ascii [str ''a=q'']) [] (strip ascii (str ''v''))"
    by blast
  ultimately show ?thesis by (simp only: f demo_guard_args_pairs)
qed

text \<open>
  C9 as stated fails on the guard: with a pair without \<open>=\<close> and a pair with an empty
  key in the list, the guard finds the proposed value unique and returns 0.
\<close>

theorem guard_parse_pairs_counterexample:
  "61 \<notin> set (str ''junk'')
   \<and> fst (split_eq (str ''=v'')) = []
   \<and> guard_main ascii demo_disk (demo_guard_args [''a=q'', ''junk'', ''=v'']) = PassUnique
   \<and> exit_code (guard_main ascii demo_disk (demo_guard_args [''a=q'', ''junk'', ''=v''])) = 0"
  by (simp add: demo_guard_unique) (simp add: str_def split_eq_def)







text \<open>
  C6, as the code has it. When the store file exists and the proposed record has no
  value or an empty value for the checked column, \<open>main\<close> reports the missing column
  and returns 1, never an admission. When the file does not exist, \<open>main\<close> admits
  with status 0 before it looks at the proposed value.
\<close>

theorem missing_field_error:
  "(files disk (g_file args) \<noteq> None
      \<and> map_of (guard_parse_pairs P (g_pairs args)) (check_col args) \<in> {None, Some []}
    \<longrightarrow> guard_main P disk args = ErrorMissingColumn \<and> exit_code (guard_main P disk args) = 1)
   \<and> (files disk (g_file args) = None
    \<longrightarrow> guard_main P disk args = PassNoFile \<and> exit_code (guard_main P disk args) = 0)"
  using guard_main_early [of disk args P] by auto

theorem missing_field_error_witness:
  "guard_main ascii demo_disk (demo_guard_args [''a='']) = ErrorMissingColumn
   \<and> exit_code (guard_main ascii demo_disk (demo_guard_args [''a=''])) = 1
   \<and> guard_main ascii no_disk (demo_guard_args [''a=x'']) = PassNoFile"
proof -
  have "files demo_disk (g_file (demo_guard_args [''a=''])) \<noteq> None
      \<and> map_of (guard_parse_pairs ascii (g_pairs (demo_guard_args [''a=''])))
           (check_col (demo_guard_args [''a=''])) \<in> {None, Some []}"
    by (simp add: demo_guard_store demo_guard_proposed(3))
  moreover have "files no_disk (g_file (demo_guard_args [''a=x''])) = None"
    by (simp add: no_disk_def)
  ultimately show ?thesis
    using missing_field_error [of demo_disk "demo_guard_args [''a='']" ascii]
      missing_field_error [of no_disk "demo_guard_args [''a=x'']" ascii]
    by blast
qed

text \<open>
  C6 as stated fails when the store file does not exist: the empty proposed value
  is then admitted with status 0.
\<close>

theorem missing_field_error_counterexample:
  "map_of (guard_parse_pairs ascii (g_pairs (demo_guard_args [''a=''])))
          (check_col (demo_guard_args [''a=''])) = Some []
   \<and> guard_main ascii no_disk (demo_guard_args [''a='']) = PassNoFile
   \<and> exit_code (guard_main ascii no_disk (demo_guard_args [''a=''])) = 0"
proof -
  have "guard_main ascii no_disk (demo_guard_args [''a='']) = PassNoFile"
    by (rule guard_main_early(1)) (simp add: no_disk_def)
  then show ?thesis by (simp add: demo_guard_proposed(3))
qed






end
